theory Spec2Isabelle
  imports Complex_Main
begin

section \<open>Python and torch values\<close>

text \<open>
  Every exception the modelled code can raise is a value; a call returns
  \<open>error + 'a\<close> with \<open>Inl\<close> for the raised exception.
\<close>

datatype error = IndexError | AssertionError | ValueError | ZeroDivisionError | RuntimeError

text \<open>
  \<^verbatim>\<open>torchaudio.load\<close> returns a tensor of shape \<open>[channels, time]\<close>. The data model
  is about mono waveforms, so a loaded file is its single channel, a \<open>real list\<close>
  (shape \<open>[1, n]\<close>), together with its sample rate. Samples are finite reals.

  \<^verbatim>\<open>Tensor.squeeze()\<close> removes every dimension of size one: a \<open>[1, n]\<close> tensor becomes
  the vector \<open>[n]\<close>, except that \<open>[1, 1]\<close> becomes a 0-dimensional tensor.
\<close>

datatype tensor = Scalar real | Vec "real list"

definition squeeze :: "real list \<Rightarrow> tensor" where
  "squeeze row = (case row of [x] \<Rightarrow> Scalar x | _ \<Rightarrow> Vec row)"

text \<open>The samples a tensor holds, in order (what \<^verbatim>\<open>flatten()\<close> gives).\<close>

fun elems :: "tensor \<Rightarrow> real list" where
  "elems (Scalar x) = [x]"
| "elems (Vec xs) = xs"

text \<open>\<^verbatim>\<open>t.shape[-1]\<close>: the shape of a 0-dimensional tensor is the empty tuple.\<close>

fun shape_last :: "tensor \<Rightarrow> error + int" where
  "shape_last (Scalar x) = Inl IndexError"
| "shape_last (Vec xs) = Inr (int (length xs))"

text \<open>Python's \<^verbatim>\<open>a // b\<close> on integers: floor division, as \<open>div\<close> on \<open>int\<close>.\<close>

definition floordiv :: "int \<Rightarrow> int \<Rightarrow> error + int" where
  "floordiv a b = (if b = 0 then Inl ZeroDivisionError else Inr (a div b))"

text \<open>
  \<^verbatim>\<open>torch.nn.functional.pad(x, (0, p), "constant")\<close> on the last dimension: \<open>p\<close> zeros
  on the right; a negative \<open>p\<close> crops, and fails when more is cropped than there is.
\<close>

definition pad :: "real list \<Rightarrow> int \<Rightarrow> error + real list" where
  "pad x p =
     (if 0 \<le> p then Inr (x @ replicate (nat p) 0)
      else if 0 \<le> int (length x) + p then Inr (take (nat (int (length x) + p)) x)
      else Inl RuntimeError)"

text \<open>\<^verbatim>\<open>xs[index]\<close> on a Python list: a negative index counts from the end.\<close>

definition py_index :: "'a list \<Rightarrow> int \<Rightarrow> error + 'a" where
  "py_index xs index =
     (if 0 \<le> index \<and> index < int (length xs) then Inr (xs ! nat index)
      else if - int (length xs) \<le> index \<and> index < 0 then Inr (xs ! nat (int (length xs) + index))
      else Inl IndexError)"

text \<open>\<^verbatim>\<open>x[start : stop]\<close>: negative bounds count from the end, all bounds are clipped.\<close>

definition slice_bound :: "nat \<Rightarrow> int \<Rightarrow> nat" where
  "slice_bound n k = (if k < 0 then nat (max 0 (int n + k)) else min (nat k) n)"

definition py_slice :: "'a list \<Rightarrow> int \<Rightarrow> int \<Rightarrow> 'a list" where
  "py_slice x start stop =
     take (slice_bound (length x) stop - slice_bound (length x) start)
          (drop (slice_bound (length x) start) x)"

text \<open>
  \<^verbatim>\<open>np.random.randint(low, high)\<close> draws from the half-open range \<open>[low, high)\<close>; the
  model returns every value the draw can give. An empty range raises \<open>ValueError\<close>.
\<close>

definition randint :: "int \<Rightarrow> int \<Rightarrow> error + int list" where
  "randint low high = (if low < high then Inr [low..high - 1] else Inl ValueError)"

section \<open>AudioDataset\<close>

text \<open>
  The attributes \<^verbatim>\<open>__init__\<close> copies from the configuration. \<open>segment_length\<close> is set, and
  read, in training mode only.
\<close>

record AudioDataset =
  hop_length :: int
  training :: bool
  segment_length :: int
  sample_rate :: int
  audio_paths :: "string list"

text \<open>The files \<^verbatim>\<open>torchaudio.load\<close> reads: a path holds a waveform and its rate, or nothing.\<close>

type_synonym files = "string \<Rightarrow> (real list \<times> int) option"

definition torchaudio_load :: "files \<Rightarrow> string \<Rightarrow> error + (real list \<times> int)" where
  "torchaudio_load fs audio_path =
     (case fs audio_path of None \<Rightarrow> Inl RuntimeError | Some r \<Rightarrow> Inr r)"

definition load_audio_to_torch ::
  "AudioDataset \<Rightarrow> files \<Rightarrow> string \<Rightarrow> error + (tensor \<times> int)" where
  "load_audio_to_torch self fs audio_path =
     (case torchaudio_load fs audio_path of
        Inl e \<Rightarrow> Inl e
      | Inr (audio, sr) \<Rightarrow>
          if \<not> training self then
            (case floordiv (int (length audio)) (hop_length self) of
               Inl e \<Rightarrow> Inl e
             | Inr q \<Rightarrow>
                 (let p = (q + 1) * hop_length self - int (length audio) in
                  case pad audio p of
                    Inl e \<Rightarrow> Inl e
                  | Inr audio' \<Rightarrow> Inr (squeeze audio', sr)))
          else Inr (squeeze audio, sr))"

text \<open>
  \<^verbatim>\<open>__getitem__\<close> draws a random crop offset in training mode, so it has several
  possible results: the model returns the list of all of them (one per value the draw can
  give; a single one where nothing is drawn).
\<close>

definition getitem :: "AudioDataset \<Rightarrow> files \<Rightarrow> int \<Rightarrow> (error + tensor) list" where
  "getitem self fs index =
     (case py_index (audio_paths self) index of
        Inl e \<Rightarrow> [Inl e]
      | Inr audio_path \<Rightarrow>
          (case load_audio_to_torch self fs audio_path of
             Inl e \<Rightarrow> [Inl e]
           | Inr (audio, sr) \<Rightarrow>
               if sr \<noteq> sample_rate self then [Inl AssertionError]
               else if \<not> training self then [Inr audio]
               else
                 (case shape_last audio of
                    Inl e \<Rightarrow> [Inl e]
                  | Inr n \<Rightarrow>
                      if n > segment_length self then
                        (let max_audio_start = n - segment_length self in
                         case randint 0 max_audio_start of
                           Inl e \<Rightarrow> [Inl e]
                         | Inr starts \<Rightarrow>
                             map (\<lambda>audio_start.
                                    Inr (Vec (py_slice (elems audio) audio_start
                                                (audio_start + segment_length self))))
                                 starts)
                      else
                        (case pad (elems audio) (segment_length self - n) of
                           Inl e \<Rightarrow> [Inl e]
                         | Inr segment \<Rightarrow> [Inr (Vec segment)]))))"

definition len :: "AudioDataset \<Rightarrow> int" where
  "len self = int (length (audio_paths self))"


text \<open>
  \<^verbatim>\<open>np.random.choice(range(n), size=size, replace=False)\<close> draws \<open>size\<close> distinct
  elements of \<open>range(n)\<close> in some order, and raises \<open>ValueError\<close> when \<open>size\<close> is negative
  or larger than the population. The model returns every index sequence the draw can give.
\<close>

fun arrangements :: "'a list \<Rightarrow> nat \<Rightarrow> 'a list list" where
  "arrangements xs 0 = [[]]"
| "arrangements xs (Suc k) =
     concat (map (\<lambda>x. map ((#) x) (arrangements (remove1 x xs) k)) xs)"

definition random_choice :: "int \<Rightarrow> int \<Rightarrow> error + int list list" where
  "random_choice n size' =
     (if size' < 0 \<or> n < size' then Inl ValueError
      else Inr (arrangements [0..n - 1] (nat size')))"

text \<open>
  The loop of \<^verbatim>\<open>sample_test_batch\<close> over the drawn indices: each item is appended to
  \<open>test_batch\<close>; an exception of \<^verbatim>\<open>__getitem__\<close> leaves the loop. As every item may
  have several possible values, so has the batch.
\<close>

fun batch_loop ::
  "(int \<Rightarrow> (error + tensor) list) \<Rightarrow> int list \<Rightarrow> tensor list \<Rightarrow> (error + tensor list) list" where
  "batch_loop item [] test_batch = [Inr test_batch]"
| "batch_loop item (index # idx) test_batch =
     concat (map (\<lambda>r. case r of
                         Inl e \<Rightarrow> [Inl e]
                       | Inr x \<Rightarrow> batch_loop item idx (test_batch @ [x]))
                 (item index))"

definition sample_test_batch ::
  "AudioDataset \<Rightarrow> files \<Rightarrow> int \<Rightarrow> (error + tensor list) list" where
  "sample_test_batch self fs size' =
     (case random_choice (len self) size' of
        Inl e \<Rightarrow> [Inl e]
      | Inr draws \<Rightarrow> concat (map (\<lambda>idx. batch_loop (getitem self fs) idx []) draws))"

section \<open>Float32 scalars\<close>

text \<open>
  The tensors of the mel extractor hold float32 numbers. Their finite values are reals here,
  and sums and products are taken exactly. A Python float that meets a float32 tensor is
  converted to float32: to the nearest float32 (24-bit significand, exponent at least
  \<open>-126\<close>, so a spacing of \<open>2 ^ -149\<close> below \<open>2 ^ -126\<close>), ties to the even significand; a
  finite value beyond the largest float32 is refused.
\<close>

definition rne :: "real \<Rightarrow> int" where
  "rne x =
     (let f = \<lfloor>x\<rfloor>; d = x - of_int f in
      if d < 1 / 2 then f else if 1 / 2 < d then f + 1 else if even f then f else f + 1)"

definition float32_exponent :: "real \<Rightarrow> int" where
  "float32_exponent x = max \<lfloor>log 2 \<bar>x\<bar>\<rfloor> (- 126)"

definition float32_round :: "real \<Rightarrow> real" where
  "float32_round x =
     (if x = 0 then 0
      else of_int (rne (x / 2 powr of_int (float32_exponent x - 23)))
           * 2 powr of_int (float32_exponent x - 23))"

definition float32_max :: real where
  "float32_max = (2 - 1 / 2 ^ 23) * 2 ^ 127"

definition scalar_to_float32 :: "real \<Rightarrow> error + real" where
  "scalar_to_float32 x =
     (if float32_max < \<bar>x\<bar> then Inl RuntimeError else Inr (float32_round x))"

section \<open>MelSpectrogramFixed\<close>

text \<open>
  A matrix is the list of its rows. The values of \<^verbatim>\<open>torch.log10\<close> on a finite float32:
  the float32 nearest to the logarithm of a positive number, \<open>-inf\<close> at zero, \<open>nan\<close> below
  zero.
\<close>

type_synonym matrix = "real list list"

datatype fval = Fin real | NegInf | NaN

definition log10 :: "real \<Rightarrow> fval" where
  "log10 x = (if 0 < x then Fin (float32_round (log 10 x)) else if x = 0 then NegInf else NaN)"

text \<open>
  \<^verbatim>\<open>x.clamp_min(eps)\<close> on a float32 tensor: the Python float \<open>eps\<close> is converted to
  float32, and every entry below it is replaced by it.
\<close>

definition clamp_min :: "matrix \<Rightarrow> real \<Rightarrow> error + matrix" where
  "clamp_min x min_value =
     (case scalar_to_float32 min_value of
        Inl e \<Rightarrow> Inl e
      | Inr m \<Rightarrow> Inr (map (map (\<lambda>v. max v m)) x))"

definition ncols :: "matrix \<Rightarrow> nat" where
  "ncols B = (case B of [] \<Rightarrow> 0 | r # _ \<Rightarrow> length r)"

text \<open>\<^verbatim>\<open>A @ B\<close>: the product of an \<open>[m, k]\<close> and a \<open>[k, n]\<close> matrix; other shapes raise.\<close>

definition matmul :: "matrix \<Rightarrow> matrix \<Rightarrow> error + matrix" where
  "matmul A B =
     (if list_all (\<lambda>row. length row = length B) A \<and> list_all (\<lambda>row. length row = ncols B) B
      then Inr (map (\<lambda>row. map (\<lambda>j. sum_list (map (\<lambda>k. row ! k * B ! k ! j) [0..<length B]))
                              [0..<ncols B]) A)
      else Inl RuntimeError)"

subsection \<open>The torchaudio Spectrogram transform\<close>

text \<open>
  \<^verbatim>\<open>Spectrogram(n_fft, win_length, hop_length, pad=0, window_fn=torch.hann_window, power=1,
  normalized=False)\<close> keeps \<open>n_fft\<close>, the window length (\<open>n_fft\<close> when none is given), the hop
  (half the window length when none is given) and the window \<^verbatim>\<open>torch.hann_window(win_length)\<close>.
  The hop is the field \<open>stft_hop_length\<close> here (\<open>hop_length\<close> is the dataset's).
\<close>

record Spectrogram =
  n_fft :: int
  win_length :: int
  stft_hop_length :: int
  window :: "real list"

text \<open>The periodic Hann window; a window of length one is the single value 1.\<close>

definition hann_window :: "int \<Rightarrow> error + real list" where
  "hann_window window_length =
     (if window_length < 0 then Inl RuntimeError
      else if window_length = 1 then Inr [1]
      else Inr (map (\<lambda>n. 1 / 2 - cos (2 * pi * real n / real_of_int window_length) / 2)
                    [0..<nat window_length]))"

definition Spectrogram_init :: "int \<Rightarrow> int option \<Rightarrow> int option \<Rightarrow> error + Spectrogram" where
  "Spectrogram_init n_fft' win_length' hop_length' =
     (let wl = (case win_length' of None \<Rightarrow> n_fft' | Some w \<Rightarrow> w);
          hl = (case hop_length' of None \<Rightarrow> wl div 2 | Some h \<Rightarrow> h)
      in case hann_window wl of
           Inl e \<Rightarrow> Inl e
         | Inr w \<Rightarrow> Inr \<lparr>n_fft = n_fft', win_length = wl, stft_hop_length = hl, window = w\<rparr>)"

text \<open>
  Its \<^verbatim>\<open>forward\<close> is \<^verbatim>\<open>torch.stft(waveform, n_fft, hop_length, win_length, window,
  center=True, pad_mode="reflect", normalized=False, onesided=True)\<close> followed by the magnitude
  of every complex entry.

  Centering pads \<open>n_fft // 2\<close> samples on both sides by reflection, which needs a waveform
  longer than the padding: sample \<open>j\<close> left of the waveform is sample \<open>-j\<close>, sample \<open>j\<close> right
  of it is sample \<open>2 (L - 1) - j\<close>.
\<close>

definition reflect_index :: "nat \<Rightarrow> int \<Rightarrow> nat" where
  "reflect_index L j = nat (if j < 0 then - j else if int L \<le> j then 2 * (int L - 1) - j else j)"

definition reflect_pad :: "real list \<Rightarrow> int \<Rightarrow> error + real list" where
  "reflect_pad x p =
     (if 0 \<le> p \<and> p < int (length x)
      then Inr (map (\<lambda>i. x ! reflect_index (length x) (int i - p)) [0..<length x + 2 * nat p])
      else Inl RuntimeError)"

text \<open>A window shorter than \<open>n_fft\<close> is padded with zeros on both sides to length \<open>n_fft\<close>.\<close>

definition padded_window :: "Spectrogram \<Rightarrow> real list" where
  "padded_window self =
     (let left = nat ((n_fft self - win_length self) div 2) in
      replicate left 0 @ window self
        @ replicate (nat (n_fft self) - left - length (window self)) 0)"

text \<open>The magnitude of bin \<open>k\<close> of the discrete Fourier transform of a frame.\<close>

definition dft_magnitude :: "real list \<Rightarrow> nat \<Rightarrow> real" where
  "dft_magnitude frame k =
     cmod (sum_list (map (\<lambda>n. complex_of_real (frame ! n)
                                * cis (- (2 * pi * real k * real n / real (length frame))))
                         [0..<length frame]))"

text \<open>
  Frame \<open>t\<close> is the windowed stretch of \<open>n_fft\<close> padded samples from \<open>t * hop_length\<close>; there
  are \<open>1 + (len - n_fft) // hop_length\<close> frames for \<open>len\<close> padded samples, and bins
  \<open>0, \<dots>, n_fft // 2\<close>. The result has shape \<open>[bins, frames]\<close>.
\<close>

definition n_frames :: "Spectrogram \<Rightarrow> nat \<Rightarrow> nat" where
  "n_frames self padded_len = nat (1 + (int padded_len - n_fft self) div stft_hop_length self)"

definition Spectrogram_forward :: "Spectrogram \<Rightarrow> real list \<Rightarrow> error + matrix" where
  "Spectrogram_forward self waveform =
     (if n_fft self \<le> 0 \<or> stft_hop_length self \<le> 0 \<or> win_length self \<le> 0
         \<or> n_fft self < win_length self \<or> int (length (window self)) \<noteq> win_length self
      then Inl RuntimeError
      else
        case reflect_pad waveform (n_fft self div 2) of
          Inl e \<Rightarrow> Inl e
        | Inr padded \<Rightarrow>
            Inr (map (\<lambda>k.
                   map (\<lambda>t. dft_magnitude
                               (map2 (*) (padded_window self)
                                  (take (nat (n_fft self))
                                     (drop (t * nat (stft_hop_length self)) padded)))
                               k)
                       [0..<n_frames self (length padded)])
                 [0..<nat (n_fft self div 2 + 1)]))"

subsection \<open>The module\<close>

text \<open>
  The module holds \<open>eps\<close>, the \<^verbatim>\<open>Spectrogram\<close> transform and the mel filterbank, the
  \<open>[n_mels, n_fft // 2 + 1]\<close> matrix that \<^verbatim>\<open>librosa.filters.mel\<close> returns. The filterbank
  is computed outside the repository: \<^verbatim>\<open>__init__\<close> takes it as given.
\<close>

record MelSpectrogramFixed =
  eps :: real
  spectrogram :: Spectrogram
  mel_basis :: matrix

definition MelSpectrogramFixed_init ::
  "matrix \<Rightarrow> int \<Rightarrow> int option \<Rightarrow> int option \<Rightarrow> real \<Rightarrow> error + MelSpectrogramFixed" where
  "MelSpectrogramFixed_init librosa_mel n_fft' win_length' hop_length' eps' =
     (case Spectrogram_init n_fft' win_length' hop_length' of
        Inl e \<Rightarrow> Inl e
      | Inr sp \<Rightarrow> Inr \<lparr>eps = eps', spectrogram = sp, mel_basis = librosa_mel\<rparr>)"

text \<open>
  \<^verbatim>\<open>forward(self, audio, remove_last=True)\<close>: the optional argument is \<open>None\<close> when
  the caller leaves it out.
\<close>

definition forward ::
  "MelSpectrogramFixed \<Rightarrow> real list \<Rightarrow> bool option \<Rightarrow> error + fval list list" where
  "forward self audio remove_last_arg =
     (let remove_last = (case remove_last_arg of None \<Rightarrow> True | Some b \<Rightarrow> b) in
      case Spectrogram_forward (spectrogram self) audio of
        Inl e \<Rightarrow> Inl e
      | Inr x_stft \<Rightarrow>
          (let spc = map (map abs) x_stft in
           case matmul (mel_basis self) spc of
             Inl e \<Rightarrow> Inl e
           | Inr projected \<Rightarrow>
               (case clamp_min projected (eps self) of
                  Inl e \<Rightarrow> Inl e
                | Inr clamped \<Rightarrow>
                    (let mel = map (map log10) clamped in
                     Inr (if remove_last then map butlast mel else mel)))))"

section \<open>The padded length in the words of the specification\<close>

text \<open>The smallest multiple of \<open>hop\<close> that is at least \<open>L\<close>, and the largest that is at most \<open>L\<close>.\<close>

definition smallest_multiple_ge :: "int \<Rightarrow> int \<Rightarrow> int" where
  "smallest_multiple_ge hop L = ((L + hop - 1) div hop) * hop"

definition largest_multiple_le :: "int \<Rightarrow> int \<Rightarrow> int" where
  "largest_multiple_le hop L = (L div hop) * hop"

section \<open>Example datasets and modules\<close>

definition ds_eval2 :: AudioDataset where
  "ds_eval2 = \<lparr>hop_length = 2, training = False, segment_length = 4, sample_rate = 22050,
               audio_paths = [''a.wav'']\<rparr>"

definition ds_train4 :: AudioDataset where
  "ds_train4 = \<lparr>hop_length = 2, training = True, segment_length = 4, sample_rate = 22050,
                audio_paths = [''a.wav'']\<rparr>"

definition ds_eval_pair :: AudioDataset where
  "ds_eval_pair = \<lparr>hop_length = 2, training = False, segment_length = 4, sample_rate = 22050,
                   audio_paths = [''a.wav'', ''b.wav'']\<rparr>"

text \<open>A file of five samples, a file of one sample, and a pair of files.\<close>

definition fs5 :: files where
  "fs5 = (\<lambda>p. if p = ''a.wav'' then Some ([1, 2, 3, 4, 5], 22050) else None)"

definition fs1 :: files where
  "fs1 = (\<lambda>p. if p = ''a.wav'' then Some ([1 / 2], 22050) else None)"

definition fs_pair :: files where
  "fs_pair = (\<lambda>p. if p = ''a.wav'' then Some ([1, 2, 3], 22050)
                   else if p = ''b.wav'' then Some ([7], 22050) else None)"

definition fs5_16k :: files where
  "fs5_16k = (\<lambda>p. if p = ''a.wav'' then Some ([1, 2, 3, 4, 5], 16000) else None)"

text \<open>
  Extractors with \<open>n_fft = 2\<close>, \<open>n_fft = 3\<close> and \<open>n_fft = 8\<close>, all with hop 2, a Hann
  window of \<open>n_fft\<close> samples and two mel bands; the first with an \<open>eps\<close> that is a float32
  (\<open>2 ^ -33\<close>), then with one far below the float32 range.
\<close>

definition stft2 :: Spectrogram where
  "stft2 = \<lparr>n_fft = 2, win_length = 2, stft_hop_length = 2, window = [0, 1]\<rparr>"

definition stft3 :: Spectrogram where
  "stft3 = \<lparr>n_fft = 3, win_length = 3, stft_hop_length = 2, window = [0, 3 / 4, 3 / 4]\<rparr>"

definition stft8 :: Spectrogram where
  "stft8 = \<lparr>n_fft = 8, win_length = 8, stft_hop_length = 2,
            window = map (\<lambda>n. 1 / 2 - cos (2 * pi * real n / 8) / 2) [0..<8]\<rparr>"

definition mel2 :: MelSpectrogramFixed where
  "mel2 = \<lparr>eps = 1 / 2 ^ 33, spectrogram = stft2, mel_basis = [[1, 0], [1 / 2, 1 / 2]]\<rparr>"


definition mel3 :: MelSpectrogramFixed where
  "mel3 = \<lparr>eps = 1 / 2 ^ 33, spectrogram = stft3, mel_basis = [[1, 0], [1 / 2, 1 / 2]]\<rparr>"

definition mel8 :: MelSpectrogramFixed where
  "mel8 = \<lparr>eps = 1 / 2 ^ 33, spectrogram = stft8,
           mel_basis = [[1, 0, 0, 0, 0], [1 / 2, 1 / 2, 0, 0, 0]]\<rparr>"

section \<open>Evaluation-mode alignment padding\<close>

lemma elems_squeeze: "elems (squeeze row) = row"
  by (simp add: squeeze_def split: list.splits)

lemma smallest_multiple_ge_least:
  assumes "0 < hop"
  shows "hop dvd smallest_multiple_ge hop L"
    and "L \<le> smallest_multiple_ge hop L"
    and "hop dvd m \<Longrightarrow> L \<le> m \<Longrightarrow> smallest_multiple_ge hop L \<le> m"
proof -
  show "hop dvd smallest_multiple_ge hop L" by (simp add: smallest_multiple_ge_def)
  have "(L + hop - 1) mod hop < hop" using assms by simp
  moreover have "(L + hop - 1) div hop * hop + (L + hop - 1) mod hop = L + hop - 1" by simp
  ultimately show "L \<le> smallest_multiple_ge hop L" unfolding smallest_multiple_ge_def by linarith
  assume "hop dvd m" "L \<le> m"
  then obtain k where k: "m = k * hop" by (auto simp: dvd_def mult.commute)
  have "(L + hop - 1) div hop \<le> (hop - 1 + k * hop) div hop"
    using \<open>L \<le> m\<close> k assms by (intro zdiv_mono1) auto
  also have "(hop - 1 + k * hop) div hop = (hop - 1) div hop + k"
    using assms by simp
  also have "(hop - 1) div hop = 0" using assms by (simp add: div_pos_pos_trivial)
  finally show "smallest_multiple_ge hop L \<le> m"
    unfolding smallest_multiple_ge_def k using assms by simp
qed

lemma pad_amount_pos:
  assumes "0 < (hop::int)"
  shows "0 < (L div hop + 1) * hop - L"
proof -
  have "L mod hop < hop" using assms by simp
  moreover have "hop * (L div hop) + L mod hop = L" by (rule mult_div_mod_eq)
  moreover have "(L div hop + 1) * hop = hop * (L div hop) + hop" by (simp add: algebra_simps)
  ultimately show ?thesis by linarith
qed

lemma padded_length:
  assumes "0 < hop"
  shows "int (length (elems (squeeze (w @ replicate (nat ((int (length w) div hop + 1) * hop
                                 - int (length w))) 0))))
         = (int (length w) div hop + 1) * hop"
proof -
  let ?p = "(int (length w) div hop + 1) * hop - int (length w)"
  have "0 < ?p" using assms by (rule pad_amount_pos)
  then have "int (nat ?p) = ?p" by (intro nat_0_le) linarith
  moreover have "int (length (elems (squeeze (w @ replicate (nat ?p) 0)))) = int (length w) + int (nat ?p)"
    by (simp only: elems_squeeze length_append length_replicate of_nat_add)
  ultimately show ?thesis by linarith
qed

lemma load_eval:
  assumes "\<not> training self" "0 < hop_length self" "fs audio_path = Some (w, sr)"
  shows "load_audio_to_torch self fs audio_path =
           Inr (squeeze (w @ replicate (nat ((int (length w) div hop_length self + 1) * hop_length self
                                 - int (length w))) 0), sr)"
  using assms pad_amount_pos [of "hop_length self" "int (length w)"]
  by (simp add: load_audio_to_torch_def torchaudio_load_def floordiv_def pad_def Let_def)


lemma largest_multiple_le_greatest:
  assumes "0 < hop"
  shows "hop dvd largest_multiple_le hop L"
    and "largest_multiple_le hop L \<le> L"
    and "hop dvd m \<Longrightarrow> m \<le> L \<Longrightarrow> m \<le> largest_multiple_le hop L"
proof -
  show "hop dvd largest_multiple_le hop L" by (simp add: largest_multiple_le_def)
  have "0 \<le> L mod hop" using assms by simp
  moreover have "hop * (L div hop) + L mod hop = L" by (rule mult_div_mod_eq)
  moreover have "L div hop * hop = hop * (L div hop)" by (rule mult.commute)
  ultimately show "largest_multiple_le hop L \<le> L"
    unfolding largest_multiple_le_def by linarith
  assume "hop dvd m" "m \<le> L"
  then obtain k where k: "m = k * hop" by (auto simp: dvd_def mult.commute)
  have "m div hop \<le> L div hop" using \<open>m \<le> L\<close> assms by (rule zdiv_mono1)
  then have "k \<le> L div hop" using k assms by simp
  then show "m \<le> largest_multiple_le hop L"
    unfolding largest_multiple_le_def k using assms by simp
qed

text \<open>
  Claim C2. In evaluation mode, with a positive hop length, \<open>load_audio_to_torch\<close> returns
  the loaded waveform of length \<open>L\<close> followed by zeros only, the new length is
  \<open>(L div hop_length + 1) * hop_length\<close>, which is a multiple of \<open>hop_length\<close> and at least
  \<open>L\<close>, and the first \<open>L\<close> samples are the original waveform; the sample rate is passed on.
\<close>

theorem eval_padding_length:
  assumes "\<not> training self" and "0 < hop_length self" and "fs audio_path = Some (w, sr)"
  shows "\<exists>t. load_audio_to_torch self fs audio_path = Inr (t, sr)
           \<and> elems t = w @ replicate (length (elems t) - length w) 0
           \<and> int (length (elems t)) = (int (length w) div hop_length self + 1) * hop_length self
           \<and> hop_length self dvd int (length (elems t))
           \<and> length w \<le> length (elems t)
           \<and> take (length w) (elems t) = w"
proof -
  let ?p = "(int (length w) div hop_length self + 1) * hop_length self - int (length w)"
  let ?t = "squeeze (w @ replicate (nat ?p) 0)"
  have pos: "0 < ?p" using assms(2) by (rule pad_amount_pos)
  have load: "load_audio_to_torch self fs audio_path = Inr (?t, sr)"
    using assms by (rule load_eval)
  have el: "elems ?t = w @ replicate (nat ?p) 0" by (rule elems_squeeze)
  have len: "int (length (elems ?t)) = (int (length w) div hop_length self + 1) * hop_length self"
    using assms(2) by (rule padded_length)
  have "length (elems ?t) - length w = nat ?p" by (simp add: el)
  then have "elems ?t = w @ replicate (length (elems ?t) - length w) 0" using el by simp
  moreover have "hop_length self dvd int (length (elems ?t))" by (simp only: len dvd_triv_right)
  moreover have "length w \<le> length (elems ?t)" by (simp add: el)
  moreover have "take (length w) (elems ?t) = w" by (simp add: el)
  ultimately show ?thesis using load len by blast
qed

theorem eval_padding_length_witness:
  "\<exists>t. load_audio_to_torch ds_eval2 fs5 ''a.wav'' = Inr (t, 22050)
           \<and> elems t = [1, 2, 3, 4, 5] @ replicate (length (elems t) - length [1, 2, 3, 4, 5 :: real]) 0
           \<and> int (length (elems t)) = 6
           \<and> (2::int) dvd int (length (elems t))
           \<and> length [1, 2, 3, 4, 5 :: real] \<le> length (elems t)
           \<and> take (length [1, 2, 3, 4, 5 :: real]) (elems t) = [1, 2, 3, 4, 5]"
  using eval_padding_length [of ds_eval2 fs5 "''a.wav''" "[1, 2, 3, 4, 5]" 22050]
  by (simp add: ds_eval2_def fs5_def)

text \<open>
  Claim C3, as stated, fails: a waveform of five samples with hop length 2 is padded to six
  samples, while the smallest multiple of 2 that is at least 5, plus one hop, is 8.
\<close>

theorem aligned_length_counterexample:
  "load_audio_to_torch ds_eval2 fs5 ''a.wav'' = Inr (Vec [1, 2, 3, 4, 5, 0], 22050)
   \<and> int (length (elems (Vec [1, 2, 3, 4, 5, 0]))) \<noteq> smallest_multiple_ge 2 5 + 2"
  by (simp add: load_audio_to_torch_def torchaudio_load_def floordiv_def pad_def squeeze_def
      ds_eval2_def fs5_def smallest_multiple_ge_def)

text \<open>
  Claim C3, amended. In evaluation mode, with a positive hop length, the padded length is the
  largest multiple of \<open>hop_length\<close> that is at most \<open>L\<close>, plus one hop: it is the smallest
  multiple of \<open>hop_length\<close> strictly greater than \<open>L\<close>.
\<close>

theorem aligned_length_amended:
  assumes "\<not> training self" and "0 < hop_length self" and "fs audio_path = Some (w, sr)"
  shows "\<exists>t. load_audio_to_torch self fs audio_path = Inr (t, sr)
           \<and> int (length (elems t)) = largest_multiple_le (hop_length self) (int (length w)) + hop_length self
           \<and> hop_length self dvd int (length (elems t))
           \<and> int (length w) < int (length (elems t))
           \<and> (\<forall>m. hop_length self dvd m \<and> int (length w) < m \<longrightarrow> int (length (elems t)) \<le> m)"
proof -
  let ?h = "hop_length self" and ?L = "int (length w)"
  let ?p = "(?L div ?h + 1) * ?h - ?L"
  let ?t = "squeeze (w @ replicate (nat ?p) 0)"
  have pos: "0 < ?p" using assms(2) by (rule pad_amount_pos)
  have load: "load_audio_to_torch self fs audio_path = Inr (?t, sr)"
    using assms by (rule load_eval)
  have len: "int (length (elems ?t)) = (?L div ?h + 1) * ?h"
    using assms(2) by (rule padded_length)
  have a: "int (length (elems ?t)) = largest_multiple_le ?h ?L + ?h"
    unfolding len largest_multiple_le_def by (simp add: algebra_simps)
  have b: "?h dvd int (length (elems ?t))" by (simp only: len dvd_triv_right)
  have c: "?L < int (length (elems ?t))" using pos len by linarith
  have d: "int (length (elems ?t)) \<le> m" if "?h dvd m" "?L < m" for m
  proof -
    from that(1) obtain k where k: "m = k * ?h" by (auto simp: dvd_def mult.commute)
    have "?L div ?h \<le> m div ?h" using that(2) assms(2) by (intro zdiv_mono1) auto
    then have "?L div ?h \<le> k" using k assms(2) by simp
    moreover have "?L div ?h \<noteq> k"
    proof
      assume "?L div ?h = k"
      then have "m = largest_multiple_le ?h ?L" by (simp add: k largest_multiple_le_def)
      then have "m \<le> ?L" using largest_multiple_le_greatest(2) [OF assms(2)] by simp
      then show False using that(2) by simp
    qed
    ultimately have "?L div ?h + 1 \<le> k" by simp
    then have "(?L div ?h + 1) * ?h \<le> k * ?h" using assms(2) by (intro mult_right_mono) auto
    then show ?thesis by (simp only: len k)
  qed
  show ?thesis using load a b c d by blast
qed

theorem aligned_length_amended_witness:
  "\<exists>t. load_audio_to_torch ds_eval2 fs5 ''a.wav'' = Inr (t, 22050)
           \<and> int (length (elems t)) = largest_multiple_le 2 5 + 2
           \<and> (2::int) dvd int (length (elems t))
           \<and> 5 < int (length (elems t))
           \<and> (\<forall>m. (2::int) dvd m \<and> 5 < m \<longrightarrow> int (length (elems t)) \<le> m)"
  using aligned_length_amended [of ds_eval2 fs5 "''a.wav''" "[1, 2, 3, 4, 5]" 22050]
  by (simp add: ds_eval2_def fs5_def)

section \<open>Items of the dataset\<close>

lemma py_slice_inside:
  assumes "0 \<le> start" and "0 \<le> n" and "start + n \<le> int (length x)"
  shows "py_slice x start (start + n) = take (nat n) (drop (nat start) x)"
    and "int (length (py_slice x start (start + n))) = n"
proof -
  have a: "slice_bound (length x) start = nat start"
    using assms by (simp add: slice_bound_def)
  have b: "slice_bound (length x) (start + n) = nat start + nat n"
    using assms by (simp add: slice_bound_def nat_add_distrib)
  show "py_slice x start (start + n) = take (nat n) (drop (nat start) x)"
    by (simp add: py_slice_def a b)
  then show "int (length (py_slice x start (start + n))) = n"
    using assms by simp
qed

lemma load_training:
  assumes "training self" and "fs audio_path = Some (w, sr)"
  shows "load_audio_to_torch self fs audio_path = Inr (squeeze w, sr)"
  using assms by (simp add: load_audio_to_torch_def torchaudio_load_def)

lemma squeeze_Vec: "length w \<noteq> 1 \<Longrightarrow> squeeze w = Vec w"
  by (cases w) (auto simp: squeeze_def split: list.splits)

lemma getitem_training_crop:
  assumes "training self" and "py_index (audio_paths self) index = Inr audio_path"
      and "fs audio_path = Some (w, sample_rate self)" and "length w \<noteq> 1"
      and "segment_length self < int (length w)"
  shows "getitem self fs index =
           map (\<lambda>audio_start. Inr (Vec (py_slice w audio_start (audio_start + segment_length self))))
               [0..int (length w) - segment_length self - 1]"
  using assms
  by (simp add: getitem_def load_training squeeze_Vec randint_def Let_def)

lemma getitem_training_pad:
  assumes "training self" and "py_index (audio_paths self) index = Inr audio_path"
      and "fs audio_path = Some (w, sample_rate self)" and "length w \<noteq> 1"
      and "int (length w) \<le> segment_length self"
  shows "getitem self fs index =
           [Inr (Vec (w @ replicate (nat (segment_length self - int (length w))) 0))]"
  using assms
  by (simp add: getitem_def load_training squeeze_Vec pad_def)

lemma getitem_training_length:
  assumes "training self" and "py_index (audio_paths self) index = Inr audio_path"
      and "fs audio_path = Some (w, sample_rate self)" and "length w \<noteq> 1"
      and "0 \<le> segment_length self"
  shows "getitem self fs index \<noteq> []"
    and "\<forall>r \<in> set (getitem self fs index).
           \<exists>segment. r = Inr (Vec segment) \<and> int (length segment) = segment_length self"
proof -
  let ?n = "segment_length self"
  show "getitem self fs index \<noteq> []"
  proof (cases "?n < int (length w)")
    case True
    then have "[0..int (length w) - ?n - 1] \<noteq> []" by (simp add: upto.simps)
    then show ?thesis using getitem_training_crop [where fs = fs, OF assms(1-4) True] by simp
  next
    case False
    then show ?thesis using getitem_training_pad [where fs = fs, OF assms(1-4)] by simp
  qed
  show "\<forall>r \<in> set (getitem self fs index).
           \<exists>segment. r = Inr (Vec segment) \<and> int (length segment) = ?n"
  proof (cases "?n < int (length w)")
    case True
    show ?thesis
    proof
      fix r assume "r \<in> set (getitem self fs index)"
      then obtain s where s: "0 \<le> s" "s \<le> int (length w) - ?n - 1"
          and r: "r = Inr (Vec (py_slice w s (s + ?n)))"
        using getitem_training_crop [where fs = fs, OF assms(1-4) True] by auto
      have "int (length (py_slice w s (s + ?n))) = ?n"
        using s assms(5) by (intro py_slice_inside(2)) auto
      then show "\<exists>segment. r = Inr (Vec segment) \<and> int (length segment) = ?n"
        using r by blast
    qed
  next
    case False
    then show ?thesis using getitem_training_pad [where fs = fs, OF assms(1-4)] by simp
  qed
qed

text \<open>
  When the source is not a one-sample file and \<open>segment_length\<close> is not negative, the lemmas
  above give the training-mode item: a slice of \<open>segment_length\<close> samples starting at one of
  the offsets \<open>0, \<dots>, L - segment_length - 1\<close>, or the source followed by zeros.
\<close>

text \<open>
  Claim C6. When the file at the index loads with a sample rate other than the configured one,
  \<open>__getitem__\<close> has a single outcome, the failed assertion, and returns no item; when the
  rates agree, the assertion does not fail.
\<close>

theorem sample_rate_mismatch_fails:
  assumes "py_index (audio_paths self) index = Inr audio_path"
      and "load_audio_to_torch self fs audio_path = Inr (audio, sr)"
  shows "(sr \<noteq> sample_rate self \<longrightarrow> getitem self fs index = [Inl AssertionError])
       \<and> (sr = sample_rate self \<longrightarrow> Inl AssertionError \<notin> set (getitem self fs index))"
  using assms
  by (cases audio)
     (auto simp: getitem_def randint_def pad_def Let_def split: if_splits)

theorem sample_rate_mismatch_fails_witness:
  "getitem ds_train4 fs5_16k 0 = [Inl AssertionError]
   \<and> Inl AssertionError \<notin> set (getitem ds_train4 fs5 0)"
proof -
  have p: "py_index (audio_paths ds_train4) 0 = Inr ''a.wav''"
    by (simp add: py_index_def ds_train4_def)
  have l1: "load_audio_to_torch ds_train4 fs5_16k ''a.wav'' = Inr (Vec [1, 2, 3, 4, 5], 16000)"
    by (simp add: load_audio_to_torch_def torchaudio_load_def squeeze_def ds_train4_def fs5_16k_def)
  have l2: "load_audio_to_torch ds_train4 fs5 ''a.wav'' = Inr (Vec [1, 2, 3, 4, 5], 22050)"
    by (simp add: load_audio_to_torch_def torchaudio_load_def squeeze_def ds_train4_def fs5_def)
  have s: "sample_rate ds_train4 = 22050" by (simp add: ds_train4_def)
  show ?thesis
    using sample_rate_mismatch_fails [OF p l1] sample_rate_mismatch_fails [OF p l2] s by simp
qed

text \<open>
  Claim C1, on a concrete input. For a training-mode file of five samples and
  \<open>segment_length = 4\<close>, the only crop \<open>__getitem__\<close> can return starts at offset 0: the draw
  \<open>randint(0, max_audio_start)\<close> excludes its upper bound, so the offset
  \<open>length - segment_length = 1\<close> and its slice are never produced.
\<close>

theorem last_offset_never_drawn:
  "getitem ds_train4 fs5 0 = [Inr (Vec [1, 2, 3, 4])]
   \<and> Inr (Vec (py_slice [1, 2, 3, 4, 5] 1 (1 + 4))) \<notin> set (getitem ds_train4 fs5 0)"
  by (simp add: getitem_def py_index_def load_audio_to_torch_def torchaudio_load_def squeeze_def
      randint_def py_slice_def slice_bound_def ds_train4_def fs5_def Let_def)

text \<open>
  Claim C4, on a concrete input. For a training-mode file of a single sample, \<open>squeeze()\<close>
  gives a 0-dimensional tensor and \<open>audio.shape[-1]\<close> raises: \<open>__getitem__\<close> returns no
  segment of length \<open>segment_length\<close>.
\<close>

theorem one_sample_waveform_raises:
  "getitem ds_train4 fs1 0 = [Inl IndexError]"
  by (simp add: getitem_def py_index_def load_audio_to_torch_def torchaudio_load_def squeeze_def
      ds_train4_def fs1_def)

section \<open>Rounding to float32\<close>

lemma rne_of_int: "rne (of_int n) = n"
  by (simp add: rne_def)


lemma rne_mono:
  assumes "x \<le> y"
  shows "rne x \<le> rne y"
proof (cases "\<lfloor>x\<rfloor> = \<lfloor>y\<rfloor>")
  case True
  then show ?thesis using assms by (auto simp: rne_def Let_def)
next
  case False
  then have lt: "\<lfloor>x\<rfloor> < \<lfloor>y\<rfloor>" using assms floor_mono [of x y] by linarith
  have "rne x \<le> \<lfloor>x\<rfloor> + 1" by (auto simp: rne_def Let_def)
  moreover have "\<lfloor>y\<rfloor> \<le> rne y" by (auto simp: rne_def Let_def)
  ultimately show ?thesis using lt by linarith
qed

lemma floor_log2_eq:
  assumes "2 powr of_int k \<le> x" and "x < 2 powr of_int (k + 1)"
  shows "\<lfloor>log 2 x\<rfloor> = k"
proof -
  have pos: "0 < x" using assms(1) powr_gt_zero [of 2 "of_int k"] by linarith
  have "of_int k \<le> log 2 x" using assms(1) pos by (simp add: le_log_iff)
  moreover have "log 2 x < of_int (k + 1)" using assms(2) pos by (simp add: log_less_iff)
  ultimately show ?thesis by (intro floor_unique) auto
qed



lemma two_powr_neg: "(2::real) powr of_int (- int n) = 1 / 2 ^ n"
  by (simp add: powr_minus powr_realpow divide_inverse)

lemma two_powr_neg_numeral: "(2::real) powr (- numeral n) = 1 / 2 ^ numeral n"
  using two_powr_neg [of "numeral n"] by simp

lemma float32_round_unfold:
  assumes "x \<noteq> 0" and "float32_exponent x = e"
  shows "float32_round x = of_int (rne (x / 2 powr of_int (e - 23))) * 2 powr of_int (e - 23)"
  using assms by (simp add: float32_round_def)


lemma float32_round_eps33: "float32_round (1 / 2 ^ 33) = 1 / 2 ^ 33"
proof -
  let ?x = "1 / 2 ^ 33 :: real"
  have "\<lfloor>log 2 \<bar>?x\<bar>\<rfloor> = - 33"
    by (intro floor_log2_eq) (simp_all add: two_powr_neg_numeral)
  then have e: "float32_exponent ?x = - 33" by (simp add: float32_exponent_def)
  have "?x / 2 powr of_int (- 33 - 23) = of_int (2 ^ 23)"
    by (simp add: two_powr_neg_numeral)
  then have r: "rne (?x / 2 powr of_int (- 33 - 23)) = 2 ^ 23"
    by (simp only: rne_of_int)
  have "?x \<noteq> 0" by simp
  then have "float32_round ?x
      = of_int (rne (?x / 2 powr of_int (- 33 - 23))) * 2 powr of_int (- 33 - 23)"
    using e by (rule float32_round_unfold)
  also have "\<dots> = of_int (2 ^ 23) * 2 powr of_int (- 33 - 23)" by (simp only: r)
  finally show ?thesis by (simp add: two_powr_neg_numeral)
qed

text \<open>The default \<open>eps = 1e-10\<close> as a float32.\<close>

lemma float32_round_default_eps: "float32_round (1 / 10 ^ 10) = 14411519 / 2 ^ 57"
proof -
  let ?x = "1 / 10 ^ 10 :: real"
  have "\<lfloor>log 2 \<bar>?x\<bar>\<rfloor> = - 34"
    by (intro floor_log2_eq) (simp_all add: two_powr_neg_numeral)
  then have e: "float32_exponent ?x = - 34" by (simp add: float32_exponent_def)
  have f: "\<lfloor>?x / 2 powr of_int (- 34 - 23)\<rfloor> = 14411518"
    by (intro floor_unique) (simp_all add: two_powr_neg_numeral)
  have r: "rne (?x / 2 powr of_int (- 34 - 23)) = 14411519"
    unfolding rne_def f Let_def by (simp add: two_powr_neg_numeral)
  have "?x \<noteq> 0" by simp
  then have "float32_round ?x
      = of_int (rne (?x / 2 powr of_int (- 34 - 23))) * 2 powr of_int (- 34 - 23)"
    using e by (rule float32_round_unfold)
  also have "\<dots> = of_int 14411519 * 2 powr of_int (- 34 - 23)" by (simp only: r)
  finally show ?thesis by (simp add: two_powr_neg_numeral)
qed


lemma scalar_eps33: "scalar_to_float32 (1 / 2 ^ 33) = Inr (1 / 2 ^ 33)"
  unfolding scalar_to_float32_def float32_round_eps33 by (simp add: float32_max_def)


lemma floor_uminus_cases:
  "\<lfloor>- x :: real\<rfloor> = (if x = of_int \<lfloor>x\<rfloor> then - \<lfloor>x\<rfloor> else - \<lfloor>x\<rfloor> - 1)"
  by (simp add: floor_minus ceiling_altdef)

lemma rne_uminus: "rne (- x) = - rne x"
proof (cases "x = of_int \<lfloor>x\<rfloor>")
  case True
  then obtain n where "x = of_int n" ..
  then show ?thesis using rne_of_int [of n] rne_of_int [of "- n"] by simp
next
  case False
  then have f: "\<lfloor>- x\<rfloor> = - \<lfloor>x\<rfloor> - 1" by (simp add: floor_uminus_cases)
  have d: "0 < x - of_int \<lfloor>x\<rfloor>" "x - of_int \<lfloor>x\<rfloor> < 1" using False by linarith+
  show ?thesis unfolding rne_def f Let_def using d by (auto simp: algebra_simps)
qed


lemma float32_round_uminus: "float32_round (- x) = - float32_round x"
  by (simp add: float32_round_def float32_exponent_def rne_uminus)

lemma float32_exponent_mono:
  assumes "0 < x" and "x \<le> y"
  shows "float32_exponent x \<le> float32_exponent y"
proof -
  have "log 2 x \<le> log 2 y" using assms by simp
  then have "\<lfloor>log 2 x\<rfloor> \<le> \<lfloor>log 2 y\<rfloor>" by (rule floor_mono)
  then show ?thesis using assms by (simp add: float32_exponent_def)
qed

lemma below_next_binade:
  assumes "0 < x"
  shows "x < 2 powr of_int (float32_exponent x + 1)"
proof -
  have "log 2 x < of_int (\<lfloor>log 2 x\<rfloor> + 1)" by linarith
  also have "\<dots> \<le> of_int (float32_exponent x + 1)"
    using assms by (simp add: float32_exponent_def)
  finally show ?thesis using assms by (simp add: log_less_iff)
qed

lemma above_binade:
  assumes "0 < x" and "- 126 < float32_exponent x"
  shows "2 powr of_int (float32_exponent x) \<le> x"
proof -
  have "float32_exponent x = \<lfloor>log 2 x\<rfloor>"
    using assms by (simp add: float32_exponent_def max_def split: if_splits)
  then have "of_int (float32_exponent x) \<le> log 2 x" by simp
  then show ?thesis using assms(1) by (simp add: le_log_iff)
qed

lemma float32_round_pos_upper:
  assumes "0 < x"
  shows "float32_round x \<le> 2 powr of_int (float32_exponent x + 1)"
proof -
  let ?e = "float32_exponent x"
  let ?u = "2 powr of_int (?e - 23) :: real"
  have u: "0 < ?u" by simp
  have split: "2 powr of_int (?e + 1) = of_int (2 ^ 24) * ?u"
  proof -
    have "of_int (?e + 1) = (of_int (?e - 23) + 24 :: real)" by simp
    then have "(2::real) powr of_int (?e + 1) = 2 powr (of_int (?e - 23) + 24)" by (rule arg_cong)
    also have "\<dots> = 2 powr of_int (?e - 23) * 2 powr 24" by (rule powr_add)
    also have "(2::real) powr 24 = 2 ^ 24" by (simp add: powr_numeral)
    finally show ?thesis by simp
  qed
  have "x / ?u \<le> of_int (2 ^ 24)"
    using below_next_binade [OF assms] u unfolding split by (simp add: field_simps)
  then have "rne (x / ?u) \<le> rne (of_int (2 ^ 24))" by (rule rne_mono)
  then have "rne (x / ?u) \<le> 2 ^ 24" by (simp only: rne_of_int)
  then have "of_int (rne (x / ?u)) * ?u \<le> of_int (2 ^ 24) * ?u"
    using u by (intro mult_right_mono) (simp_all add: of_int_le_iff [symmetric] del: of_int_le_iff)
  then show ?thesis using assms unfolding split by (simp add: float32_round_def)
qed

lemma float32_round_pos_lower:
  assumes "0 < x" and "- 126 < float32_exponent x"
  shows "2 powr of_int (float32_exponent x) \<le> float32_round x"
proof -
  let ?e = "float32_exponent x"
  let ?u = "2 powr of_int (?e - 23) :: real"
  have u: "0 < ?u" by simp
  have split: "2 powr of_int ?e = of_int (2 ^ 23) * ?u"
  proof -
    have "of_int ?e = (of_int (?e - 23) + 23 :: real)" by simp
    then have "(2::real) powr of_int ?e = 2 powr (of_int (?e - 23) + 23)" by (rule arg_cong)
    also have "\<dots> = 2 powr of_int (?e - 23) * 2 powr 23" by (rule powr_add)
    also have "(2::real) powr 23 = 2 ^ 23" by (simp add: powr_numeral)
    finally show ?thesis by simp
  qed
  have "of_int (2 ^ 23) \<le> x / ?u"
    using above_binade [OF assms] u unfolding split by (simp add: field_simps)
  then have "rne (of_int (2 ^ 23)) \<le> rne (x / ?u)" by (rule rne_mono)
  then have "2 ^ 23 \<le> rne (x / ?u)" by (simp only: rne_of_int)
  then have "of_int (2 ^ 23) * ?u \<le> of_int (rne (x / ?u)) * ?u"
    using u by (intro mult_right_mono) (simp_all add: of_int_le_iff [symmetric] del: of_int_le_iff)
  then show ?thesis using assms unfolding split by (simp add: float32_round_def)
qed

lemma float32_round_nonneg:
  assumes "0 \<le> x"
  shows "0 \<le> float32_round x"
proof (cases "x = 0")
  case True
  then show ?thesis by (simp add: float32_round_def)
next
  case False
  let ?u = "2 powr of_int (float32_exponent x - 23) :: real"
  have "0 \<le> x / ?u" using assms by simp
  then have "rne 0 \<le> rne (x / ?u)" by (rule rne_mono)
  then have "0 \<le> rne (x / ?u)" using rne_of_int [of 0] by simp
  then show ?thesis using False by (simp add: float32_round_def)
qed

lemma float32_round_mono_pos:
  assumes "0 < x" and "x \<le> y"
  shows "float32_round x \<le> float32_round y"
proof -
  have y: "0 < y" using assms by linarith
  have le: "float32_exponent x \<le> float32_exponent y" using assms by (rule float32_exponent_mono)
  show ?thesis
  proof (cases "float32_exponent x = float32_exponent y")
    case True
    let ?u = "2 powr of_int (float32_exponent y - 23) :: real"
    have "x / ?u \<le> y / ?u" using assms(2) by (simp add: divide_right_mono)
    then have "rne (x / ?u) \<le> rne (y / ?u)" by (rule rne_mono)
    then have "of_int (rne (x / ?u)) * ?u \<le> of_int (rne (y / ?u)) * ?u"
      by (intro mult_right_mono) simp_all
    then show ?thesis using assms(1) y True by (simp add: float32_round_def)
  next
    case False
    then have lt: "float32_exponent x + 1 \<le> float32_exponent y" using le by linarith
    have "- 126 \<le> float32_exponent x" by (simp add: float32_exponent_def)
    then have big: "- 126 < float32_exponent y" using lt by linarith
    have "float32_round x \<le> 2 powr of_int (float32_exponent x + 1)"
      using assms(1) by (rule float32_round_pos_upper)
    also have "\<dots> \<le> 2 powr of_int (float32_exponent y)"
      using lt by (intro powr_mono) simp_all
    also have "\<dots> \<le> float32_round y" using y big by (rule float32_round_pos_lower)
    finally show ?thesis .
  qed
qed

lemma float32_round_mono:
  assumes "x \<le> y"
  shows "float32_round x \<le> float32_round y"
proof -
  consider "0 < x" | "x \<le> 0" "0 \<le> y" | "y < 0" by linarith
  then show ?thesis
  proof cases
    case 1
    then show ?thesis using assms by (rule float32_round_mono_pos)
  next
    case 2
    have "0 \<le> float32_round (- x)" using 2(1) by (intro float32_round_nonneg) simp
    then have "float32_round x \<le> 0" by (simp add: float32_round_uminus)
    also have "0 \<le> float32_round y" using 2(2) by (rule float32_round_nonneg)
    finally show ?thesis .
  next
    case 3
    then have "0 < - y" "- y \<le> - x" using assms by simp_all
    then have "float32_round (- y) \<le> float32_round (- x)" by (rule float32_round_mono_pos)
    then show ?thesis by (simp add: float32_round_uminus)
  qed
qed

section \<open>The mel extractor\<close>

lemma ncols_uniform:
  assumes "B \<noteq> []" and "\<forall>r \<in> set B. length r = n"
  shows "ncols B = n"
  using assms by (cases B) (auto simp: ncols_def)

lemma matmul_shape:
  assumes "matmul A B = Inr P"
  shows "length P = length A" and "\<forall>row \<in> set P. length row = ncols B"
  using assms by (auto simp: matmul_def split: if_splits)

lemma matmul_defined:
  assumes "\<forall>row \<in> set A. length row = length B" and "\<forall>row \<in> set B. length row = ncols B"
  shows "\<exists>P. matmul A B = Inr P"
  using assms by (simp add: matmul_def list_all_iff)

lemma reflect_pad_length:
  assumes "0 \<le> p" and "p < int (length x)"
  shows "\<exists>padded. reflect_pad x p = Inr padded \<and> length padded = length x + 2 * nat p"
  using assms by (simp add: reflect_pad_def)

lemma Spectrogram_forward_shape:
  assumes "0 < n_fft sp" and "0 < stft_hop_length sp" and "0 < win_length sp"
      and "win_length sp \<le> n_fft sp" and "int (length (window sp)) = win_length sp"
      and "n_fft sp div 2 < int (length x)"
  shows "\<exists>S. Spectrogram_forward sp x = Inr S
           \<and> length S = nat (n_fft sp div 2 + 1)
           \<and> (\<forall>row \<in> set S. length row = n_frames sp (length x + 2 * nat (n_fft sp div 2)))"
proof -
  have "0 \<le> n_fft sp div 2" using assms(1) by simp
  from reflect_pad_length [OF this assms(6)] obtain padded where
    p: "reflect_pad x (n_fft sp div 2) = Inr padded"
    and l: "length padded = length x + 2 * nat (n_fft sp div 2)"
    by blast
  show ?thesis using assms(1-5) by (auto simp: Spectrogram_forward_def p l)
qed

lemma Spectrogram_forward_short:
  assumes "int (length x) \<le> n_fft sp div 2"
  shows "Spectrogram_forward sp x = Inl RuntimeError"
  using assms by (simp add: Spectrogram_forward_def reflect_pad_def)

lemma forward_valid:
  assumes "0 < n_fft (spectrogram self)" and "0 < stft_hop_length (spectrogram self)"
      and "0 < win_length (spectrogram self)"
      and "win_length (spectrogram self) \<le> n_fft (spectrogram self)"
      and "int (length (window (spectrogram self))) = win_length (spectrogram self)"
      and "n_fft (spectrogram self) div 2 < int (length audio)"
      and "\<forall>row \<in> set (mel_basis self). length row = nat (n_fft (spectrogram self) div 2 + 1)"
      and "scalar_to_float32 (eps self) = Inr e"
  shows "\<exists>x_stft projected.
           Spectrogram_forward (spectrogram self) audio = Inr x_stft
         \<and> (\<forall>row \<in> set x_stft. length row
               = n_frames (spectrogram self) (length audio + 2 * nat (n_fft (spectrogram self) div 2)))
         \<and> matmul (mel_basis self) (map (map abs) x_stft) = Inr projected
         \<and> length projected = length (mel_basis self)
         \<and> (\<forall>row \<in> set projected. length row
               = n_frames (spectrogram self) (length audio + 2 * nat (n_fft (spectrogram self) div 2)))
         \<and> forward self audio (Some False)
               = Inr (map (map (\<lambda>v. log10 (max v e))) projected)
         \<and> forward self audio (Some True)
               = Inr (map butlast (map (map (\<lambda>v. log10 (max v e))) projected))
         \<and> forward self audio None
               = Inr (map butlast (map (map (\<lambda>v. log10 (max v e))) projected))"
proof -
  let ?sp = "spectrogram self"
  let ?T = "n_frames ?sp (length audio + 2 * nat (n_fft ?sp div 2))"
  from Spectrogram_forward_shape [OF assms(1-6)] obtain S where
    S: "Spectrogram_forward ?sp audio = Inr S" and Sl: "length S = nat (n_fft ?sp div 2 + 1)"
    and Sr: "\<forall>row \<in> set S. length row = ?T"
    by blast
  let ?spc = "map (map abs) S"
  have ne: "?spc \<noteq> []" using Sl assms(1) by auto
  have rows: "\<forall>r \<in> set ?spc. length r = ?T" using Sr by simp
  have nc: "ncols ?spc = ?T" using ne rows by (rule ncols_uniform)
  have "\<exists>P. matmul (mel_basis self) ?spc = Inr P"
    using assms(7) Sl rows nc by (intro matmul_defined) simp_all
  then obtain P where P: "matmul (mel_basis self) ?spc = Inr P" ..
  have Pl: "length P = length (mel_basis self)" using matmul_shape(1) [OF P] .
  have Pr: "\<forall>row \<in> set P. length row = ?T" using matmul_shape(2) [OF P] nc by simp
  have c: "clamp_min P (eps self) = Inr (map (map (\<lambda>v. max v e)) P)"
    by (simp add: clamp_min_def assms(8))
  have f: "forward self audio (Some False) = Inr (map (map (\<lambda>v. log10 (max v e))) P)"
    and t: "forward self audio (Some True)
              = Inr (map butlast (map (map (\<lambda>v. log10 (max v e))) P))"
    and n: "forward self audio None
              = Inr (map butlast (map (map (\<lambda>v. log10 (max v e))) P))"
    by (simp_all add: forward_def S P c comp_def)
  show ?thesis using S Sr P Pl Pr f t n by blast
qed

text \<open>The example transforms are the ones \<^verbatim>\<open>Spectrogram(n_fft, hop_length=2)\<close> builds.\<close>

lemma stft2_init: "Spectrogram_init 2 None (Some 2) = Inr stft2"
  by (simp add: Spectrogram_init_def hann_window_def stft2_def numeral_2_eq_2)

lemma stft8_init: "Spectrogram_init 8 None (Some 2) = Inr stft8"
  by (simp add: Spectrogram_init_def hann_window_def stft8_def)














lemma float32_round_smallest: "float32_round (1 / 2 ^ 149) = 1 / 2 ^ 149"
proof -
  let ?x = "1 / 2 ^ 149 :: real"
  have "\<lfloor>log 2 \<bar>?x\<bar>\<rfloor> = - 149"
    by (intro floor_log2_eq) (simp_all add: two_powr_neg_numeral)
  then have e: "float32_exponent ?x = - 126" by (simp add: float32_exponent_def)
  have "?x / 2 powr of_int (- 126 - 23) = of_int 1"
    by (simp add: two_powr_neg_numeral)
  then have r: "rne (?x / 2 powr of_int (- 126 - 23)) = 1"
    by (simp only: rne_of_int)
  have "?x \<noteq> 0" by simp
  then have "float32_round ?x
      = of_int (rne (?x / 2 powr of_int (- 126 - 23))) * 2 powr of_int (- 126 - 23)"
    using e by (rule float32_round_unfold)
  also have "\<dots> = of_int 1 * 2 powr of_int (- 126 - 23)" by (simp only: r)
  finally show ?thesis by (simp add: two_powr_neg_numeral)
qed

lemma float32_round_positive:
  assumes "1 / 2 ^ 149 \<le> x"
  shows "0 < float32_round x"
proof -
  have "float32_round (1 / 2 ^ 149) \<le> float32_round x" using assms by (rule float32_round_mono)
  then have "1 / 2 ^ 149 \<le> float32_round x" by (simp only: float32_round_smallest)
  moreover have "(0::real) < 1 / 2 ^ 149" by simp
  ultimately show ?thesis by linarith
qed

lemma scalar_to_float32_positive:
  assumes "1 / 2 ^ 149 \<le> x" and "x \<le> float32_max"
  shows "\<exists>e. scalar_to_float32 x = Inr e \<and> 0 < e"
proof -
  have "0 < x" using assms(1) by (rule less_le_trans [rotated]) simp
  then have "scalar_to_float32 x = Inr (float32_round x)"
    using assms(2) by (simp add: scalar_to_float32_def)
  then show ?thesis using float32_round_positive [OF assms(1)] by simp
qed

lemma n_frames_positive:
  assumes "0 < n_fft sp" and "0 < stft_hop_length sp" and "n_fft sp div 2 < int L"
  shows "0 < n_frames sp (L + 2 * nat (n_fft sp div 2))"
proof -
  have "n_fft sp \<le> 2 * (n_fft sp div 2) + 1" by linarith
  then have "0 \<le> int (L + 2 * nat (n_fft sp div 2)) - n_fft sp" using assms(1,3) by simp
  then have "0 \<le> (int (L + 2 * nat (n_fft sp div 2)) - n_fft sp) div stft_hop_length sp"
    using assms(2) by (simp add: pos_imp_zdiv_nonneg_iff)
  then show ?thesis by (simp add: n_frames_def)
qed

text \<open>
  Claim C10. Whenever the transform accepts the waveform (positive \<open>n_fft\<close> and hop, a window
  length in \<open>1, \<dots>, n_fft\<close>, more than \<open>n_fft // 2\<close> samples), the filterbank has
  \<open>n_fft // 2 + 1\<close> columns and \<open>eps\<close> converts to float32: \<open>forward\<close> with
  \<open>remove_last = False\<close> returns one row per mel band with as many frames as the transform
  emits (at least one), the clamped and log-scaled projection of its magnitudes; a call that
  leaves the flag out is the call with \<open>remove_last = True\<close>, and it returns that result with
  the last frame of every band dropped, one frame fewer.
\<close>

theorem remove_last_default:
  assumes "0 < n_fft (spectrogram self)" and "0 < stft_hop_length (spectrogram self)"
      and "0 < win_length (spectrogram self)"
      and "win_length (spectrogram self) \<le> n_fft (spectrogram self)"
      and "int (length (window (spectrogram self))) = win_length (spectrogram self)"
      and "n_fft (spectrogram self) div 2 < int (length audio)"
      and "\<forall>row \<in> set (mel_basis self). length row = nat (n_fft (spectrogram self) div 2 + 1)"
      and "scalar_to_float32 (eps self) = Inr e"
  shows "\<exists>x_stft projected full.
           Spectrogram_forward (spectrogram self) audio = Inr x_stft
         \<and> matmul (mel_basis self) (map (map abs) x_stft) = Inr projected
         \<and> full = map (map (\<lambda>v. log10 (max v e))) projected
         \<and> forward self audio (Some False) = Inr full
         \<and> forward self audio None = Inr (map butlast full)
         \<and> forward self audio None = forward self audio (Some True)
         \<and> length full = length (mel_basis self)
         \<and> 0 < ncols x_stft
         \<and> (\<forall>row \<in> set full. length row = ncols x_stft)
         \<and> (\<forall>row \<in> set (map butlast full). length row = ncols x_stft - 1)"
proof -
  let ?sp = "spectrogram self"
  let ?T = "n_frames ?sp (length audio + 2 * nat (n_fft ?sp div 2))"
  from forward_valid [OF assms] obtain x_stft projected where
    S: "Spectrogram_forward ?sp audio = Inr x_stft"
    and Sr: "\<forall>row \<in> set x_stft. length row = ?T"
    and P: "matmul (mel_basis self) (map (map abs) x_stft) = Inr projected"
    and Pl: "length projected = length (mel_basis self)"
    and Pr: "\<forall>row \<in> set projected. length row = ?T"
    and f: "forward self audio (Some False) = Inr (map (map (\<lambda>v. log10 (max v e))) projected)"
    and t: "forward self audio (Some True)
               = Inr (map butlast (map (map (\<lambda>v. log10 (max v e))) projected))"
    and n: "forward self audio None
               = Inr (map butlast (map (map (\<lambda>v. log10 (max v e))) projected))"
    by blast
  let ?full = "map (map (\<lambda>v. log10 (max v e))) projected"
  from Spectrogram_forward_shape [OF assms(1-6)] S
  have "length x_stft = nat (n_fft ?sp div 2 + 1)" by simp
  then have "x_stft \<noteq> []" using assms(1) by auto
  then have nc: "ncols x_stft = ?T" using Sr by (rule ncols_uniform)
  have pos: "0 < ncols x_stft" unfolding nc using assms(1,2,6) by (rule n_frames_positive)
  have a: "length ?full = length (mel_basis self)" using Pl by simp
  have b: "\<forall>row \<in> set ?full. length row = ncols x_stft" using Pr nc by simp
  have c: "\<forall>row \<in> set (map butlast ?full). length row = ncols x_stft - 1" using Pr nc by simp
  show ?thesis using S P f n t a pos b c by (intro exI [of _ x_stft] exI [of _ projected] exI [of _ ?full]) simp
qed

theorem remove_last_default_witness:
  "\<exists>x_stft projected full.
           Spectrogram_forward (spectrogram mel2) [1, 2, 3, 4, 5, 0] = Inr x_stft
         \<and> matmul (mel_basis mel2) (map (map abs) x_stft) = Inr projected
         \<and> full = map (map (\<lambda>v. log10 (max v (1 / 2 ^ 33)))) projected
         \<and> forward mel2 [1, 2, 3, 4, 5, 0] (Some False) = Inr full
         \<and> forward mel2 [1, 2, 3, 4, 5, 0] None = Inr (map butlast full)
         \<and> forward mel2 [1, 2, 3, 4, 5, 0] None = forward mel2 [1, 2, 3, 4, 5, 0] (Some True)
         \<and> length full = 2
         \<and> ncols x_stft = 4
         \<and> (\<forall>row \<in> set full. length row = 4)
         \<and> (\<forall>row \<in> set (map butlast full). length row = 3)"
proof -
  let ?audio = "[1, 2, 3, 4, 5, 0] :: real list"
  have e: "scalar_to_float32 (eps mel2) = Inr (1 / 2 ^ 33)"
    using scalar_eps33 by (simp add: mel2_def)
  have "\<exists>x_stft projected full.
           Spectrogram_forward (spectrogram mel2) ?audio = Inr x_stft
         \<and> matmul (mel_basis mel2) (map (map abs) x_stft) = Inr projected
         \<and> full = map (map (\<lambda>v. log10 (max v (1 / 2 ^ 33)))) projected
         \<and> forward mel2 ?audio (Some False) = Inr full
         \<and> forward mel2 ?audio None = Inr (map butlast full)
         \<and> forward mel2 ?audio None = forward mel2 ?audio (Some True)
         \<and> length full = length (mel_basis mel2)
         \<and> 0 < ncols x_stft
         \<and> (\<forall>row \<in> set full. length row = ncols x_stft)
         \<and> (\<forall>row \<in> set (map butlast full). length row = ncols x_stft - 1)"
    by (rule remove_last_default [OF _ _ _ _ _ _ _ e]) (simp_all add: mel2_def stft2_def)
  then obtain x_stft projected full where
    r: "Spectrogram_forward (spectrogram mel2) ?audio = Inr x_stft"
       "matmul (mel_basis mel2) (map (map abs) x_stft) = Inr projected"
       "full = map (map (\<lambda>v. log10 (max v (1 / 2 ^ 33)))) projected"
       "forward mel2 ?audio (Some False) = Inr full"
       "forward mel2 ?audio None = Inr (map butlast full)"
       "forward mel2 ?audio None = forward mel2 ?audio (Some True)"
       "length full = length (mel_basis mel2)"
       "\<forall>row \<in> set full. length row = ncols x_stft"
       "\<forall>row \<in> set (map butlast full). length row = ncols x_stft - 1"
    by blast
  have "\<exists>S. Spectrogram_forward stft2 ?audio = Inr S
           \<and> length S = nat (n_fft stft2 div 2 + 1)
           \<and> (\<forall>row \<in> set S. length row = n_frames stft2 (length ?audio + 2 * nat (n_fft stft2 div 2)))"
    by (rule Spectrogram_forward_shape) (simp_all add: stft2_def)
  then have "length x_stft = 2" and "\<forall>row \<in> set x_stft. length row = 4"
    using r(1) by (simp_all add: mel2_def stft2_def n_frames_def)
  then have nc: "ncols x_stft = 4" by (intro ncols_uniform) auto
  have "length full = 2" using r(7) by (simp add: mel2_def)
  then show ?thesis using r nc by (intro exI [of _ x_stft] exI [of _ projected] exI [of _ full]) simp
qed







lemma load_b: "load_audio_to_torch ds_eval_pair fs_pair ''b.wav'' = Inr (Vec [7, 0], 22050)"
  by (simp add: load_audio_to_torch_def torchaudio_load_def floordiv_def pad_def squeeze_def
      ds_eval_pair_def fs_pair_def)

lemma load_ds_eval2: "load_audio_to_torch ds_eval2 fs5 ''a.wav'' = Inr (Vec [1, 2, 3, 4, 5, 0], 22050)"
  by (simp add: load_audio_to_torch_def torchaudio_load_def floordiv_def pad_def squeeze_def
      ds_eval2_def fs5_def)

lemma cos_240: "cos (4 * pi / 3) = - (1 / 2)"
proof -
  have "4 * pi / 3 = 2 * pi - 2 * pi / 3" by simp
  then have "cos (4 * pi / 3) = cos (2 * pi - 2 * pi / 3)" by (rule arg_cong)
  also have "\<dots> = cos (2 * pi / 3)" by (rule cos_2pi_minus)
  finally show ?thesis by (simp add: cos_120)
qed

lemma stft3_init: "Spectrogram_init 3 None (Some 2) = Inr stft3"
  by (simp add: Spectrogram_init_def hann_window_def stft3_def numeral_3_eq_3 cos_120 cos_240)

lemma odd_n_fft_frames:
  "map_sum id (map length) (forward mel3 [1, 2, 3, 4, 5, 0] (Some True)) = Inr [2, 2]"
proof -
  let ?audio = "[1, 2, 3, 4, 5, 0] :: real list"
  have e: "scalar_to_float32 (eps mel3) = Inr (1 / 2 ^ 33)"
    using scalar_eps33 by (simp add: mel3_def)
  have "\<exists>x_stft projected.
           Spectrogram_forward (spectrogram mel3) ?audio = Inr x_stft
         \<and> (\<forall>row \<in> set x_stft. length row
               = n_frames (spectrogram mel3) (length ?audio + 2 * nat (n_fft (spectrogram mel3) div 2)))
         \<and> matmul (mel_basis mel3) (map (map abs) x_stft) = Inr projected
         \<and> length projected = length (mel_basis mel3)
         \<and> (\<forall>row \<in> set projected. length row
               = n_frames (spectrogram mel3) (length ?audio + 2 * nat (n_fft (spectrogram mel3) div 2)))
         \<and> forward mel3 ?audio (Some False)
               = Inr (map (map (\<lambda>v. log10 (max v (1 / 2 ^ 33)))) projected)
         \<and> forward mel3 ?audio (Some True)
               = Inr (map butlast (map (map (\<lambda>v. log10 (max v (1 / 2 ^ 33)))) projected))
         \<and> forward mel3 ?audio None
               = Inr (map butlast (map (map (\<lambda>v. log10 (max v (1 / 2 ^ 33)))) projected))"
    by (rule forward_valid [OF _ _ _ _ _ _ _ e]) (simp_all add: mel3_def stft3_def)
  then obtain projected where
    l': "length projected = length (mel_basis mel3)"
    and r': "\<forall>row \<in> set projected. length row
               = n_frames (spectrogram mel3) (length ?audio + 2 * nat (n_fft (spectrogram mel3) div 2))"
    and t: "forward mel3 ?audio (Some True)
               = Inr (map butlast (map (map (\<lambda>v. log10 (max v (1 / 2 ^ 33)))) projected))"
    by blast
  have l: "length projected = 2" using l' by (simp add: mel3_def)
  have r: "\<forall>row \<in> set projected. length row = 3"
    using r' by (simp add: mel3_def stft3_def n_frames_def)
  let ?lens = "map length (map butlast (map (map (\<lambda>v. log10 (max v (1 / 2 ^ 33)))) projected))"
  have "length ?lens = 2" using l by simp
  moreover have "\<forall>n \<in> set ?lens. n = 2" using r by auto
  ultimately have "?lens = replicate 2 2" by (metis replicate_eqI)
  then show ?thesis unfolding t by (simp add: numeral_2_eq_2)
qed

text \<open>
  Claim C5, as stated, fails. The evaluation-mode waveform of a one-sample file has aligned
  length 2; with \<open>n_fft = 8\<close> the reflection padding of the transform needs more than 4
  samples, and \<open>forward\<close> raises instead of returning \<open>2 / 2 = 1\<close> frame. And with the odd
  \<open>n_fft = 3\<close> the aligned waveform of length 6 gives 3 frames, so 2 after the drop, not
  \<open>6 / 2 = 3\<close>.
\<close>

theorem short_waveform_raises:
  "load_audio_to_torch ds_eval_pair fs_pair ''b.wav'' = Inr (Vec [7, 0], 22050)
   \<and> stft_hop_length (spectrogram mel8) = hop_length ds_eval_pair
   \<and> forward mel8 (elems (Vec [7, 0])) (Some True) = Inl RuntimeError
   \<and> load_audio_to_torch ds_eval2 fs5 ''a.wav'' = Inr (Vec [1, 2, 3, 4, 5, 0], 22050)
   \<and> stft_hop_length (spectrogram mel3) = hop_length ds_eval2
   \<and> map_sum id (map length) (forward mel3 (elems (Vec [1, 2, 3, 4, 5, 0])) (Some True))
       = Inr [2, 2]"
proof (intro conjI)
  show "load_audio_to_torch ds_eval_pair fs_pair ''b.wav'' = Inr (Vec [7, 0], 22050)"
    by (rule load_b)
  show "stft_hop_length (spectrogram mel8) = hop_length ds_eval_pair"
    by (simp add: mel8_def stft8_def ds_eval_pair_def)
  have "Spectrogram_forward (spectrogram mel8) [7, 0] = Inl RuntimeError"
    by (rule Spectrogram_forward_short) (simp add: mel8_def stft8_def)
  then show "forward mel8 (elems (Vec [7, 0])) (Some True) = Inl RuntimeError"
    by (simp add: forward_def)
  show "load_audio_to_torch ds_eval2 fs5 ''a.wav'' = Inr (Vec [1, 2, 3, 4, 5, 0], 22050)"
    by (rule load_ds_eval2)
  show "stft_hop_length (spectrogram mel3) = hop_length ds_eval2"
    by (simp add: mel3_def stft3_def ds_eval2_def)
  show "map_sum id (map length) (forward mel3 (elems (Vec [1, 2, 3, 4, 5, 0])) (Some True))
          = Inr [2, 2]"
    using odd_n_fft_frames by simp
qed

lemma n_frames_even:
  assumes "0 < n_fft sp" and "even (n_fft sp)" and "0 < stft_hop_length sp"
  shows "int (n_frames sp (L + 2 * nat (n_fft sp div 2))) = int L div stft_hop_length sp + 1"
proof -
  have "2 * (n_fft sp div 2) = n_fft sp" using assms(2) by simp
  then have "int (L + 2 * nat (n_fft sp div 2)) - n_fft sp = int L" using assms(1) by simp
  moreover have "0 \<le> int L div stft_hop_length sp"
    using assms(3) by (simp add: pos_imp_zdiv_nonneg_iff)
  ultimately show ?thesis by (simp add: n_frames_def)
qed

lemma length_butlast_int: "int (length r) = n + 1 \<Longrightarrow> 0 \<le> n \<Longrightarrow> int (length (butlast r)) = n"
  by (cases r rule: rev_cases) auto

text \<open>
  Claim C5, amended. Let \<open>t\<close> be the evaluation-mode waveform of aligned length \<open>A\<close> that
  \<open>load_audio_to_torch\<close> returns (positive hop length), and let the extractor use the
  dataset's hop length, an even \<open>n_fft\<close> with \<open>n_fft // 2 < A\<close>, a window length in
  \<open>1, \<dots>, n_fft\<close>, a filterbank of \<open>n_fft // 2 + 1\<close> columns and an \<open>eps\<close> that converts to
  float32. Then the transform emits \<open>A / hop_length + 1\<close> frames, and \<open>forward\<close> with the
  last-frame drop returns exactly \<open>A / hop_length\<close> frames per band, where \<open>hop_length\<close>
  divides \<open>A\<close>: the result without the drop with the last frame of every band removed.
\<close>

theorem mel_frame_count:
  assumes "\<not> training ds" and "0 < hop_length ds"
      and "load_audio_to_torch ds fs audio_path = Inr (t, sr)"
      and "stft_hop_length (spectrogram self) = hop_length ds"
      and "0 < n_fft (spectrogram self)" and "even (n_fft (spectrogram self))"
      and "n_fft (spectrogram self) div 2 < int (length (elems t))"
      and "0 < win_length (spectrogram self)"
      and "win_length (spectrogram self) \<le> n_fft (spectrogram self)"
      and "int (length (window (spectrogram self))) = win_length (spectrogram self)"
      and "\<forall>row \<in> set (mel_basis self). length row = nat (n_fft (spectrogram self) div 2 + 1)"
      and "scalar_to_float32 (eps self) = Inr e"
  shows "\<exists>x_stft mel full.
           Spectrogram_forward (spectrogram self) (elems t) = Inr x_stft
         \<and> (\<forall>r \<in> set x_stft. int (length r) = int (length (elems t)) div hop_length ds + 1)
         \<and> forward self (elems t) (Some True) = Inr mel
         \<and> forward self (elems t) (Some False) = Inr full
         \<and> (\<forall>r \<in> set full. int (length r) = int (length (elems t)) div hop_length ds + 1)
         \<and> (\<forall>r \<in> set mel. int (length r) = int (length (elems t)) div hop_length ds)
         \<and> int (length (elems t)) div hop_length ds * hop_length ds = int (length (elems t))
         \<and> mel = map butlast full
         \<and> length mel = length (mel_basis self)"
proof -
  let ?sp = "spectrogram self"
  let ?A = "int (length (elems t))" and ?h = "hop_length ds"
  let ?T = "n_frames ?sp (length (elems t) + 2 * nat (n_fft ?sp div 2))"
  have hop: "0 < stft_hop_length ?sp" using assms(2,4) by simp
  from forward_valid [OF assms(5) hop assms(8,9,10,7,11,12)] obtain x_stft projected where
    S: "Spectrogram_forward ?sp (elems t) = Inr x_stft"
    and Sr: "\<forall>row \<in> set x_stft. length row = ?T"
    and Pl: "length projected = length (mel_basis self)"
    and Pr: "\<forall>row \<in> set projected. length row = ?T"
    and f: "forward self (elems t) (Some False) = Inr (map (map (\<lambda>v. log10 (max v e))) projected)"
    and tr: "forward self (elems t) (Some True)
               = Inr (map butlast (map (map (\<lambda>v. log10 (max v e))) projected))"
    by blast
  let ?full = "map (map (\<lambda>v. log10 (max v e))) projected"
  have T: "int ?T = ?A div ?h + 1"
    using n_frames_even [OF assms(5,6) hop, of "length (elems t)"] assms(4) by simp
  have nn: "0 \<le> ?A div ?h" using assms(2) by (simp add: pos_imp_zdiv_nonneg_iff)
  have c0: "\<forall>r \<in> set x_stft. int (length r) = ?A div ?h + 1" using Sr T by simp
  have c1: "\<forall>r \<in> set ?full. int (length r) = ?A div ?h + 1" using Pr T by simp
  have c2: "\<forall>r \<in> set (map butlast ?full). int (length r) = ?A div ?h"
  proof
    fix r assume "r \<in> set (map butlast ?full)"
    then obtain r' where "r' \<in> set ?full" and r: "r = butlast r'" by auto
    then have "int (length r') = ?A div ?h + 1" using c1 by blast
    then show "int (length r) = ?A div ?h" unfolding r using nn by (rule length_butlast_int)
  qed
  have c3: "?A div ?h * ?h = ?A"
  proof -
    from assms(3) obtain w sr' where w: "fs audio_path = Some (w, sr')"
      by (cases "fs audio_path") (auto simp: load_audio_to_torch_def torchaudio_load_def)
    have "load_audio_to_torch ds fs audio_path
            = Inr (squeeze (w @ replicate (nat ((int (length w) div ?h + 1) * ?h - int (length w))) 0), sr')"
      using assms(1,2) w by (rule load_eval)
    with assms(3) have "t = squeeze (w @ replicate (nat ((int (length w) div ?h + 1) * ?h - int (length w))) 0)"
      by simp
    then have "?A = (int (length w) div ?h + 1) * ?h"
      using padded_length [OF assms(2), of w] by simp
    then have "?h dvd ?A" by simp
    then show ?thesis by simp
  qed
  have c4: "length (map butlast ?full) = length (mel_basis self)" using Pl by simp
  show ?thesis using S c0 tr f c1 c2 c3 c4
    by (intro exI [of _ x_stft] exI [of _ "map butlast ?full"] exI [of _ ?full]) simp
qed

theorem mel_frame_count_witness:
  "\<exists>x_stft mel full.
           Spectrogram_forward (spectrogram mel2) [1, 2, 3, 4, 5, 0] = Inr x_stft
         \<and> (\<forall>r \<in> set x_stft. int (length r) = 4)
         \<and> forward mel2 [1, 2, 3, 4, 5, 0] (Some True) = Inr mel
         \<and> forward mel2 [1, 2, 3, 4, 5, 0] (Some False) = Inr full
         \<and> (\<forall>r \<in> set full. int (length r) = 4)
         \<and> (\<forall>r \<in> set mel. int (length r) = 3)
         \<and> mel = map butlast full
         \<and> length mel = length (mel_basis mel2)"
proof -
  have a: "\<not> training ds_eval2" and b: "0 < hop_length ds_eval2" by (simp_all add: ds_eval2_def)
  have e: "scalar_to_float32 (eps mel2) = Inr (1 / 2 ^ 33)"
    using scalar_eps33 by (simp add: mel2_def)
  show ?thesis
    using mel_frame_count [OF a b load_ds_eval2 _ _ _ _ _ _ _ _ e]
    by (simp add: ds_eval2_def mel2_def stft2_def)
qed

section \<open>Test batches\<close>

lemma arrangements_sound:
  assumes "distinct xs" and "ys \<in> set (arrangements xs k)"
  shows "length ys = k \<and> distinct ys \<and> set ys \<subseteq> set xs"
  using assms
proof (induction k arbitrary: xs ys)
  case 0
  then show ?case by simp
next
  case (Suc k)
  from Suc.prems(2) obtain x zs where x: "x \<in> set xs" and ys: "ys = x # zs"
    and zs: "zs \<in> set (arrangements (remove1 x xs) k)"
    by auto
  have "distinct (remove1 x xs)" using Suc.prems(1) by simp
  from Suc.IH [OF this zs]
  have "length zs = k" "distinct zs" "set zs \<subseteq> set (remove1 x xs)" by simp_all
  moreover have "set (remove1 x xs) = set xs - {x}" using Suc.prems(1) by simp
  ultimately show ?case using x ys by auto
qed

lemma arrangements_complete:
  assumes "distinct xs" and "distinct ys" and "set ys \<subseteq> set xs"
  shows "ys \<in> set (arrangements xs (length ys))"
  using assms
proof (induction ys arbitrary: xs)
  case Nil
  then show ?case by simp
next
  case (Cons y ys)
  have "distinct (remove1 y xs)" using Cons.prems(1) by simp
  moreover have "set ys \<subseteq> set (remove1 y xs)" using Cons.prems by auto
  ultimately have "ys \<in> set (arrangements (remove1 y xs) (length ys))"
    using Cons.prems(2) by (intro Cons.IH) auto
  then show ?case using Cons.prems(3) by auto
qed

lemma arrangements_nonempty:
  assumes "k \<le> length xs"
  shows "arrangements xs k \<noteq> []"
  using assms
proof (induction k arbitrary: xs)
  case 0
  then show ?case by simp
next
  case (Suc k)
  then obtain x xs' where xs: "xs = x # xs'" by (cases xs) auto
  then have "arrangements (remove1 x xs) k \<noteq> []" using Suc by simp
  then show ?case using xs by auto
qed

lemma batch_loop_Inr:
  assumes "Inr batch \<in> set (batch_loop item idx test_batch)"
  shows "\<exists>xs. batch = test_batch @ xs \<and> length xs = length idx
              \<and> (\<forall>j < length idx. Inr (xs ! j) \<in> set (item (idx ! j)))"
  using assms
proof (induction idx arbitrary: test_batch)
  case Nil
  then show ?case by simp
next
  case (Cons index idx)
  from Cons.prems obtain r where r: "r \<in> set (item index)"
    and inr: "Inr batch \<in> set (case r of Inl e \<Rightarrow> [Inl e]
                                   | Inr x \<Rightarrow> batch_loop item idx (test_batch @ [x]))"
    by auto
  then obtain x where x: "Inr x \<in> set (item index)"
    and rest: "Inr batch \<in> set (batch_loop item idx (test_batch @ [x]))"
    by - (cases r; auto)
  from Cons.IH [OF rest] obtain xs where xs: "batch = (test_batch @ [x]) @ xs"
    "length xs = length idx" "\<forall>j < length idx. Inr (xs ! j) \<in> set (item (idx ! j))"
    by blast
  have "\<forall>j < length (index # idx). Inr ((x # xs) ! j) \<in> set (item ((index # idx) ! j))"
    using x xs(3) by (auto simp: nth_Cons split: nat.splits)
  then show ?case using xs(1,2) by (intro exI [of _ "x # xs"]) simp
qed

lemma batch_loop_Inl:
  assumes "Inl e \<in> set (batch_loop item idx test_batch)"
  shows "\<exists>i \<in> set idx. Inl e \<in> set (item i)"
  using assms
proof (induction idx arbitrary: test_batch)
  case Nil
  then show ?case by simp
next
  case (Cons index idx)
  from Cons.prems obtain r where r: "r \<in> set (item index)"
    and inl: "Inl e \<in> set (case r of Inl e \<Rightarrow> [Inl e]
                               | Inr x \<Rightarrow> batch_loop item idx (test_batch @ [x]))"
    by auto
  then consider "Inl e \<in> set (item index)"
    | x where "Inl e \<in> set (batch_loop item idx (test_batch @ [x]))"
    by - (cases r; auto)
  then show ?case
  proof cases
    case 1
    then show ?thesis by simp
  next
    case 2
    from Cons.IH [OF this] show ?thesis by simp
  qed
qed

lemma batch_loop_nonempty:
  assumes "\<forall>i \<in> set idx. item i \<noteq> []"
  shows "batch_loop item idx test_batch \<noteq> []"
  using assms
proof (induction idx arbitrary: test_batch)
  case Nil
  then show ?case by simp
next
  case (Cons index idx)
  then obtain r rs where r: "item index = r # rs" by (cases "item index") auto
  have "batch_loop item idx tb \<noteq> []" for tb using Cons by simp
  then show ?case using r by (cases r) auto
qed

lemma getitem_nonempty: "getitem self fs index \<noteq> []"
  by (auto simp: getitem_def randint_def Let_def upto.simps split: sum.splits prod.splits if_splits)


lemma random_choice_draws:
  assumes "0 \<le> K" and "K \<le> n"
  shows "\<exists>draws. random_choice n K = Inr draws \<and> draws \<noteq> []
           \<and> (\<forall>idx \<in> set draws. int (length idx) = K \<and> distinct idx
                                  \<and> (\<forall>i \<in> set idx. 0 \<le> i \<and> i < n))"
proof -
  let ?draws = "arrangements [0..n - 1] (nat K)"
  have rc: "random_choice n K = Inr ?draws" using assms by (simp add: random_choice_def)
  have "nat K \<le> length [0..n - 1]" using assms by simp
  then have ne: "?draws \<noteq> []" by (rule arrangements_nonempty)
  have "int (length idx) = K \<and> distinct idx \<and> (\<forall>i \<in> set idx. 0 \<le> i \<and> i < n)"
    if "idx \<in> set ?draws" for idx
  proof -
    have "length idx = nat K \<and> distinct idx \<and> set idx \<subseteq> set [0..n - 1]"
      using that by (intro arrangements_sound) simp_all
    then show ?thesis using assms(1) by auto
  qed
  then show ?thesis using rc ne by blast
qed

lemma random_choice_every_draw:
  assumes "distinct idx" and "\<forall>i \<in> set idx. 0 \<le> i \<and> i < n" and "0 \<le> n"
  shows "\<exists>draws. random_choice n (int (length idx)) = Inr draws \<and> idx \<in> set draws"
proof -
  have sub: "set idx \<subseteq> set [0..n - 1]" using assms(2) by auto
  have "card (set idx) \<le> card (set [0..n - 1])" using sub by (intro card_mono) simp_all
  then have "int (length idx) \<le> n"
    using assms(1,3) by (simp add: distinct_card)
  moreover have "idx \<in> set (arrangements [0..n - 1] (length idx))"
    using assms(1) sub by (intro arrangements_complete) simp_all
  ultimately show ?thesis by (simp add: random_choice_def)
qed

text \<open>
  Claim C7. For a dataset of \<open>N\<close> paths and a batch size \<open>K \<ge> 0\<close>: when \<open>K \<le> N\<close>,
  \<open>sample_test_batch\<close> has an outcome, every batch it returns holds exactly \<open>K\<close> items, the
  items of \<open>K\<close> pairwise distinct indices below \<open>N\<close> in the order drawn, and an exception
  can only be one that \<open>__getitem__\<close> raises for an item; when \<open>K > N\<close>, the only outcome is
  the \<open>ValueError\<close> of the draw.
\<close>

theorem sample_test_batch_distinct:
  assumes "0 \<le> K"
  shows "(K \<le> len self \<longrightarrow>
            sample_test_batch self fs K \<noteq> []
          \<and> (\<forall>batch. Inr batch \<in> set (sample_test_batch self fs K) \<longrightarrow>
                (\<exists>idx. int (length idx) = K \<and> distinct idx
                      \<and> (\<forall>i \<in> set idx. 0 \<le> i \<and> i < len self)
                      \<and> length batch = length idx
                      \<and> (\<forall>j < length idx. Inr (batch ! j) \<in> set (getitem self fs (idx ! j)))))
          \<and> (\<forall>e. Inl e \<in> set (sample_test_batch self fs K) \<longrightarrow>
                (\<exists>i. 0 \<le> i \<and> i < len self \<and> Inl e \<in> set (getitem self fs i))))
       \<and> (len self < K \<longrightarrow> sample_test_batch self fs K = [Inl ValueError])"
proof (intro conjI impI)
  assume "len self < K"
  then show "sample_test_batch self fs K = [Inl ValueError]"
    by (simp add: sample_test_batch_def random_choice_def)
next
  assume le: "K \<le> len self"
  from random_choice_draws [OF assms le] obtain draws where
    rc: "random_choice (len self) K = Inr draws" and ne: "draws \<noteq> []"
    and ok: "\<forall>idx \<in> set draws. int (length idx) = K \<and> distinct idx
                 \<and> (\<forall>i \<in> set idx. 0 \<le> i \<and> i < len self)"
    by blast
  have stb: "sample_test_batch self fs K
               = concat (map (\<lambda>idx. batch_loop (getitem self fs) idx []) draws)"
    by (simp add: sample_test_batch_def rc)
  {
    obtain idx rest where "draws = idx # rest" using ne by (cases draws) auto
    moreover have "batch_loop (getitem self fs) idx [] \<noteq> []"
      by (intro batch_loop_nonempty) (simp add: getitem_nonempty)
    ultimately show "sample_test_batch self fs K \<noteq> []" by (simp add: stb)
  }
  {
    show "\<forall>batch. Inr batch \<in> set (sample_test_batch self fs K) \<longrightarrow>
                (\<exists>idx. int (length idx) = K \<and> distinct idx
                      \<and> (\<forall>i \<in> set idx. 0 \<le> i \<and> i < len self)
                      \<and> length batch = length idx
                      \<and> (\<forall>j < length idx. Inr (batch ! j) \<in> set (getitem self fs (idx ! j))))"
    proof (intro allI impI)
      fix batch assume "Inr batch \<in> set (sample_test_batch self fs K)"
      then obtain idx where idx: "idx \<in> set draws"
        and b: "Inr batch \<in> set (batch_loop (getitem self fs) idx [])"
        by (auto simp: stb)
      from batch_loop_Inr [OF b] have "length batch = length idx"
        "\<forall>j < length idx. Inr (batch ! j) \<in> set (getitem self fs (idx ! j))" by auto
      then show "\<exists>idx. int (length idx) = K \<and> distinct idx
                      \<and> (\<forall>i \<in> set idx. 0 \<le> i \<and> i < len self)
                      \<and> length batch = length idx
                      \<and> (\<forall>j < length idx. Inr (batch ! j) \<in> set (getitem self fs (idx ! j)))"
        using ok idx by blast
    qed
  }
  {
    show "\<forall>e. Inl e \<in> set (sample_test_batch self fs K) \<longrightarrow>
                (\<exists>i. 0 \<le> i \<and> i < len self \<and> Inl e \<in> set (getitem self fs i))"
    proof (intro allI impI)
      fix e assume "Inl e \<in> set (sample_test_batch self fs K)"
      then obtain idx where idx: "idx \<in> set draws"
        and b: "Inl e \<in> set (batch_loop (getitem self fs) idx [])"
        by (auto simp: stb)
      from batch_loop_Inl [OF b] obtain i where "i \<in> set idx" "Inl e \<in> set (getitem self fs i)"
        by blast
      then show "\<exists>i. 0 \<le> i \<and> i < len self \<and> Inl e \<in> set (getitem self fs i)"
        using ok idx by blast
    qed
  }
qed

lemma batch_pair:
  "sample_test_batch ds_eval_pair fs_pair 2
     = [Inr [Vec [1, 2, 3, 0], Vec [7, 0]], Inr [Vec [7, 0], Vec [1, 2, 3, 0]]]"
  by (simp add: sample_test_batch_def random_choice_def len_def getitem_def py_index_def
      load_audio_to_torch_def torchaudio_load_def floordiv_def pad_def squeeze_def
      ds_eval_pair_def fs_pair_def numeral_2_eq_2 upto.simps)


theorem sample_test_batch_distinct_witness:
  "sample_test_batch ds_eval_pair fs_pair 2 \<noteq> []
   \<and> (\<exists>idx. int (length idx) = 2 \<and> distinct idx
          \<and> (\<forall>i \<in> set idx. 0 \<le> i \<and> i < len ds_eval_pair)
          \<and> length [Vec [7, 0], Vec [1, 2, 3, 0]] = length idx
          \<and> (\<forall>j < length idx. Inr ([Vec [7, 0], Vec [1, 2, 3, 0]] ! j)
                                  \<in> set (getitem ds_eval_pair fs_pair (idx ! j))))
   \<and> sample_test_batch ds_eval_pair fs_pair 3 = [Inl ValueError]"
proof -
  have n: "len ds_eval_pair = 2" by (simp add: len_def ds_eval_pair_def)
  have k2: "(0::int) \<le> 2" and k3: "(0::int) \<le> 3" by simp_all
  have le: "2 \<le> len ds_eval_pair" and less: "len ds_eval_pair < 3" by (simp_all add: n)
  have m: "Inr [Vec [7, 0], Vec [1, 2, 3, 0]] \<in> set (sample_test_batch ds_eval_pair fs_pair 2)"
    by (simp add: batch_pair)
  show ?thesis
    using sample_test_batch_distinct [OF k2, of ds_eval_pair fs_pair]
      sample_test_batch_distinct [OF k3, of ds_eval_pair fs_pair] le less m
    by blast
qed

end
